theory Spec2Isabelle
  imports Main
begin

section \<open>Data model (server/db.ts, shared schema)\<close>

text \<open>
  Documents of the four collections the booking core touches. Every document carries the
  string key that Mongo stores as \<open>_id\<close> and \<open>mapDoc\<close> renames to \<open>id\<close>; here the
  key fields are \<open>u_id\<close>, \<open>v_id\<close>, \<open>r_id\<close> and \<open>b_id\<close>. Seat counts are
  integers in the specification's data model and are modelled as \<open>int\<close>; JavaScript's
  number arithmetic is exact on integers below \<open>2 ^ 53\<close>, and fractional or larger
  seat counts are outside this model. The geographic fields of a ride (coordinates, addresses, live position) are
  written by no operation modelled here and are left out.
\<close>

text \<open>
  A booking's status is a string. The schema lists four values, but
  \<open>PATCH /api/bookings/:id\<close> hands the request body to \<open>findByIdAndUpdate\<close>, which
  runs no validators, so any string can be stored.
\<close>

type_synonym booking_status = string

abbreviation pending :: booking_status where "pending \<equiv> ''pending''"
abbreviation accepted :: booking_status where "accepted \<equiv> ''accepted''"
abbreviation rejected :: booking_status where "rejected \<equiv> ''rejected''"
abbreviation cancelled :: booking_status where "cancelled \<equiv> ''cancelled''"

datatype ride_status = scheduled | ongoing | completed

record user =
  u_id :: string
  clerkId :: "string option"
  name :: string
  email :: string
  password :: "string option"
  role :: string
  avatar :: "string option"
  phone :: "string option"
  cnic :: "string option"
  cnicStatus :: string
  isAdmin :: bool

record vehicle =
  v_id :: string
  ownerId :: string
  model :: string
  plate :: string
  color :: string
  seats :: int

record ride =
  r_id :: string
  driverId :: string
  vehicleId :: "string option"
  departureTime :: int
  seatsTotal :: int
  seatsAvailable :: int
  costPerSeat :: int
  isActive :: bool
  rstatus :: ride_status

record booking =
  b_id :: string
  rideId :: string
  passengerId :: string
  status :: booking_status
  seatsBooked :: int

text \<open>\<open>Partial<Ride>\<close> and \<open>Partial<Booking>\<close>: every field may be absent.\<close>

record ride_patch =
  p_seatsAvailable :: "int option"
  p_isActive :: "bool option"
  p_rstatus :: "ride_status option"

record booking_patch =
  p_rideId :: "string option"
  p_passengerId :: "string option"
  p_status :: "booking_status option"
  p_seatsBooked :: "int option"

text \<open>\<open>BookingWithDetails\<close>: the booking together with its ride, passenger and driver.\<close>

record booking_details =
  d_booking :: booking
  d_ride :: ride
  d_passenger :: user
  d_driver :: "user option"

text \<open>The database: one document list per collection, in insertion order.\<close>

record store =
  users :: "user list"
  vehicles :: "vehicle list"
  rides :: "ride list"
  bookings :: "booking list"

section \<open>Mongoose collection primitives\<close>

definition findById :: "('a \<Rightarrow> string) \<Rightarrow> 'a list \<Rightarrow> string \<Rightarrow> 'a option" where
  "findById key docs i = find (\<lambda>d. key d = i) docs"

fun updateFirst :: "('a \<Rightarrow> bool) \<Rightarrow> ('a \<Rightarrow> 'a) \<Rightarrow> 'a list \<Rightarrow> 'a list" where
  "updateFirst p f [] = []"
| "updateFirst p f (d # ds) = (if p d then f d # ds else d # updateFirst p f ds)"

fun deleteFirst :: "('a \<Rightarrow> bool) \<Rightarrow> 'a list \<Rightarrow> 'a list" where
  "deleteFirst p [] = []"
| "deleteFirst p (d # ds) = (if p d then ds else d # deleteFirst p ds)"

definition applyRidePatch :: "ride_patch \<Rightarrow> ride \<Rightarrow> ride" where
  "applyRidePatch data r =
     r\<lparr>seatsAvailable := (case p_seatsAvailable data of None \<Rightarrow> seatsAvailable r | Some n \<Rightarrow> n),
       isActive := (case p_isActive data of None \<Rightarrow> isActive r | Some a \<Rightarrow> a),
       rstatus := (case p_rstatus data of None \<Rightarrow> rstatus r | Some t \<Rightarrow> t)\<rparr>"

definition applyBookingPatch :: "booking_patch \<Rightarrow> booking \<Rightarrow> booking" where
  "applyBookingPatch data b =
     b\<lparr>rideId := (case p_rideId data of None \<Rightarrow> rideId b | Some x \<Rightarrow> x),
       passengerId := (case p_passengerId data of None \<Rightarrow> passengerId b | Some x \<Rightarrow> x),
       status := (case p_status data of None \<Rightarrow> status b | Some t \<Rightarrow> t),
       seatsBooked := (case p_seatsBooked data of None \<Rightarrow> seatsBooked b | Some n \<Rightarrow> n)\<rparr>"

text \<open>The request bodies the handlers send: \<open>{ seatsAvailable: n }\<close> and \<open>{ status: t }\<close>.\<close>

definition seatsPatch :: "int \<Rightarrow> ride_patch" where
  "seatsPatch n = \<lparr>p_seatsAvailable = Some n, p_isActive = None, p_rstatus = None\<rparr>"

definition statusPatch :: "booking_status \<Rightarrow> booking_patch" where
  "statusPatch t = \<lparr>p_rideId = None, p_passengerId = None, p_status = Some t, p_seatsBooked = None\<rparr>"

section \<open>MongoStorage (server/storage.ts)\<close>

text \<open>
  Every storage method takes the database and returns its result together with the
  database it leaves behind.
\<close>

definition stripPassword :: "user \<Rightarrow> user" where
  "stripPassword u = u\<lparr>password := None\<rparr>"

definition getSafeDriver :: "user option \<Rightarrow> string \<Rightarrow> user" where
  "getSafeDriver driver did =
     (case driver of
        Some d \<Rightarrow> stripPassword d
      | None \<Rightarrow> \<lparr>u_id = did, clerkId = None, name = ''Unknown Driver'',
                 email = ''missing@data.com'', password = Some [], role = ''driver'',
                 avatar = None, phone = None, cnic = None,
                 cnicStatus = ''not_uploaded'', isAdmin = False\<rparr>)"

definition getUser :: "string \<Rightarrow> store \<Rightarrow> user option \<times> store" where
  "getUser i s = (findById u_id (users s) i, s)"

definition getRide :: "string \<Rightarrow> store \<Rightarrow> ride option \<times> store" where
  "getRide i s = (findById r_id (rides s) i, s)"

definition updateRide :: "string \<Rightarrow> ride_patch \<Rightarrow> store \<Rightarrow> ride option \<times> store" where
  "updateRide i data s =
     (let rs = updateFirst (\<lambda>r. r_id r = i) (applyRidePatch data) (rides s)
      in (findById r_id rs i, s\<lparr>rides := rs\<rparr>))"

fun rejectEach :: "booking list \<Rightarrow> store \<Rightarrow> store" where
  "rejectEach [] s = s"
| "rejectEach (b # bs) s =
     rejectEach bs
       (s\<lparr>bookings := updateFirst (\<lambda>x. b_id x = b_id b)
                         (applyBookingPatch (statusPatch rejected)) (bookings s)\<rparr>)"

definition deleteRide :: "string \<Rightarrow> store \<Rightarrow> bool \<times> store" where
  "deleteRide i s =
     (let found = filter (\<lambda>b. rideId b = i \<and> status b = pending) (bookings s);
          s1 = rejectEach found s;
          result = findById r_id (rides s1) i
      in (result \<noteq> None, s1\<lparr>rides := deleteFirst (\<lambda>r. r_id r = i) (rides s1)\<rparr>))"

definition getBooking :: "string \<Rightarrow> store \<Rightarrow> booking option \<times> store" where
  "getBooking i s = (findById b_id (bookings s) i, s)"

definition getBookingWithDetails :: "string \<Rightarrow> store \<Rightarrow> booking_details option \<times> store" where
  "getBookingWithDetails i s =
     (case getBooking i s of
        (None, s1) \<Rightarrow> (None, s1)
      | (Some b, s1) \<Rightarrow>
          (case getRide (rideId b) s1 of
             (None, s2) \<Rightarrow> (None, s2)
           | (Some r, s2) \<Rightarrow>
               (case getUser (passengerId b) s2 of
                  (passenger, s3) \<Rightarrow>
                    (case getUser (driverId r) s3 of
                       (driver, s4) \<Rightarrow>
                         (Some \<lparr>d_booking = b, d_ride = r,
                                d_passenger = getSafeDriver passenger (passengerId b),
                                d_driver = map_option stripPassword driver\<rparr>, s4)))))"

text \<open>The loop shared by \<open>getBookingsByPassenger\<close> and \<open>getBookingsByRide\<close>.\<close>

fun collectDetails :: "booking list \<Rightarrow> booking_details list \<Rightarrow> store
    \<Rightarrow> booking_details list \<times> store" where
  "collectDetails [] results s = (results, s)"
| "collectDetails (b # bs) results s =
     (case getBookingWithDetails (b_id b) s of
        (None, s1) \<Rightarrow> collectDetails bs results s1
      | (Some d, s1) \<Rightarrow> collectDetails bs (results @ [d]) s1)"

definition getBookingsByPassenger :: "string \<Rightarrow> store \<Rightarrow> booking_details list \<times> store" where
  "getBookingsByPassenger pid s =
     collectDetails (filter (\<lambda>b. passengerId b = pid) (bookings s)) [] s"

definition getBookingsByRide :: "string \<Rightarrow> store \<Rightarrow> booking_details list \<times> store" where
  "getBookingsByRide rid s =
     collectDetails (filter (\<lambda>b. rideId b = rid) (bookings s)) [] s"

text \<open>
  \<open>createBooking\<close> draws its key from \<open>randomUUID()\<close>, here the argument \<open>newId\<close>.
  Mongo refuses a second document with the same \<open>_id\<close>; the exception is the result
  \<open>None\<close>.
\<close>

definition createBooking :: "string \<Rightarrow> string \<Rightarrow> string \<Rightarrow> booking_status \<Rightarrow> int \<Rightarrow> store
    \<Rightarrow> booking option \<times> store" where
  "createBooking newId rid pid st n s =
     (if findById b_id (bookings s) newId \<noteq> None then (None, s)
      else (let b = \<lparr>b_id = newId, rideId = rid, passengerId = pid, status = st,
                      seatsBooked = n\<rparr>
            in (Some b, s\<lparr>bookings := bookings s @ [b]\<rparr>)))"

definition updateBooking :: "string \<Rightarrow> booking_patch \<Rightarrow> store \<Rightarrow> booking option \<times> store" where
  "updateBooking i data s =
     (case getBooking i s of
        (None, s0) \<Rightarrow> (None, s0)
      | (Some existingBooking, s0) \<Rightarrow>
          (let bs = updateFirst (\<lambda>b. b_id b = i) (applyBookingPatch data) (bookings s0);
               s1 = s0\<lparr>bookings := bs\<rparr>
           in (case findById b_id bs i of
                 None \<Rightarrow> (None, s1)
               | Some booking \<Rightarrow>
                   (case getRide (rideId booking) s1 of
                      (None, s2) \<Rightarrow> (Some booking, s2)
                    | (Some ride, s2) \<Rightarrow>
                        (let s3 = (if p_status data = Some rejected
                                      \<and> status existingBooking = pending
                                   then snd (updateRide (r_id ride)
                                          (seatsPatch (seatsAvailable ride + seatsBooked booking)) s2)
                                   else s2);
                             s4 = (if p_status data = Some cancelled
                                      \<and> (status existingBooking = accepted
                                           \<or> status existingBooking = pending)
                                   then snd (updateRide (r_id ride)
                                          (seatsPatch (seatsAvailable ride + seatsBooked booking)) s3)
                                   else s3)
                         in (Some booking, s4))))))"

section \<open>Booking routes (server/routes.ts)\<close>

text \<open>
  The outcomes of \<open>POST /api/bookings\<close> other than the created booking: the schema
  rejects the body (400), the ride is missing (404, the spec's NotFound), too few seats
  are left (400, the spec's InsufficientSeats), or an exception reaches the handler's
  \<open>catch\<close> (400, "Booking failed").
\<close>

datatype api_error = ValidationError | NotFound | InsufficientSeats | BookingFailed

text \<open>
  The body's \<open>seatsBooked\<close> may be absent; the schema's \<open>.default(1)\<close> fills it in
  before \<open>.min(1)\<close> is checked.
\<close>

definition seatsOrDefault :: "int option \<Rightarrow> int" where
  "seatsOrDefault body_seats = (case body_seats of None \<Rightarrow> 1 | Some k \<Rightarrow> k)"

definition requestBooking :: "string \<Rightarrow> string \<Rightarrow> string \<Rightarrow> int option \<Rightarrow> store
    \<Rightarrow> (api_error + booking) \<times> store" where
  "requestBooking newId rid pid body_seats s =
     (let n = seatsOrDefault body_seats
      in if n < 1 then (Inl ValidationError, s)
         else (case getRide rid s of
                 (None, s1) \<Rightarrow> (Inl NotFound, s1)
               | (Some ride, s1) \<Rightarrow>
                   if seatsAvailable ride < n then (Inl InsufficientSeats, s1)
                   else (case createBooking newId rid pid pending n s1 of
                           (None, s2) \<Rightarrow> (Inl BookingFailed, s2)
                         | (Some booking, s2) \<Rightarrow>
                             (let newSeatsAvailable = seatsAvailable ride - n
                              in (Inr booking,
                                  snd (updateRide rid (seatsPatch newSeatsAvailable) s2))))))"

text \<open>\<open>PATCH /api/bookings/:id\<close> with the body \<open>{ status }\<close> the client sends.\<close>

definition setStatus :: "string \<Rightarrow> booking_status \<Rightarrow> store \<Rightarrow> booking option \<times> store" where
  "setStatus i t s = updateBooking i (statusPatch t) s"

text \<open>
  A client request to the booking core, and the database after serving it:
  \<open>POST /api/bookings\<close>, \<open>PATCH /api/bookings/:id\<close> and \<open>DELETE /api/rides/:id\<close>.
\<close>

datatype request =
    RequestBooking string string string "int option"
  | SetStatus string booking_status
  | DeleteRide string

fun serve :: "request \<Rightarrow> store \<Rightarrow> store" where
  "serve (RequestBooking newId rid pid body_seats) s = snd (requestBooking newId rid pid body_seats s)"
| "serve (SetStatus i t) s = snd (setStatus i t s)"
| "serve (DeleteRide i) s = snd (deleteRide i s)"

fun serveAll :: "request list \<Rightarrow> store \<Rightarrow> store" where
  "serveAll [] s = s"
| "serveAll (q # qs) s = serveAll qs (serve q s)"

section \<open>Properties of the specification\<close>

text \<open>Mongo's unique \<open>_id\<close> index on the two collections the booking core writes.\<close>

definition uniqueIds :: "store \<Rightarrow> bool" where
  "uniqueIds s = (distinct (map r_id (rides s)) \<and> distinct (map b_id (bookings s)))"

text \<open>A booking holds seats of ride \<open>rid\<close> while it is pending or accepted.\<close>

definition seatHolding :: "booking_status \<Rightarrow> bool" where
  "seatHolding t = (t = pending \<or> t = accepted)"

definition holdsSeats :: "string \<Rightarrow> booking \<Rightarrow> bool" where
  "holdsSeats rid b = (rideId b = rid \<and> seatHolding (status b))"

definition seatsHeld :: "string \<Rightarrow> booking \<Rightarrow> int" where
  "seatsHeld rid b = (if holdsSeats rid b then seatsBooked b else 0)"

definition reservedSeats :: "booking list \<Rightarrow> string \<Rightarrow> int" where
  "reservedSeats bs rid = sum_list (map seatsBooked (filter (holdsSeats rid) bs))"

definition seatConservation :: "store \<Rightarrow> bool" where
  "seatConservation s =
     list_all (\<lambda>r. seatsAvailable r + reservedSeats (bookings s) (r_id r) = seatsTotal r) (rides s)"

definition seatsInRange :: "store \<Rightarrow> bool" where
  "seatsInRange s = list_all (\<lambda>r. 0 \<le> seatsAvailable r \<and> seatsAvailable r \<le> seatsTotal r) (rides s)"

definition seatsNonNegative :: "store \<Rightarrow> bool" where
  "seatsNonNegative s =
     (list_all (\<lambda>r. 0 \<le> seatsAvailable r) (rides s) \<and> list_all (\<lambda>b. 0 \<le> seatsBooked b) (bookings s))"

text \<open>
  No ride is overcommitted: the seats on offer and the seats held do not exceed the total.
\<close>

definition seatsCovered :: "store \<Rightarrow> bool" where
  "seatsCovered s =
     list_all (\<lambda>r. seatsAvailable r + reservedSeats (bookings s) (r_id r) \<le> seatsTotal r) (rides s)"

text \<open>The two guards of \<open>updateBooking\<close> under which it writes the seat counter.\<close>

definition refunds :: "booking_status \<Rightarrow> booking_status \<Rightarrow> bool" where
  "refunds old new = ((new = rejected \<and> old = pending) \<or> (new = cancelled \<and> (old = accepted \<or> old = pending)))"

text \<open>
  A status change revives a booking when it moves a booking that holds no seats (rejected,
  cancelled or any other string) to pending or accepted: the code takes no seats for it.
\<close>

definition revives :: "booking_status \<Rightarrow> booking_status \<Rightarrow> bool" where
  "revives old new = (\<not> seatHolding old \<and> seatHolding new)"

text \<open>
  A status change releases seats without a refund when it moves a pending or accepted
  booking to a status that holds no seats and neither guard of \<open>updateBooking\<close> fires:
  accepted to rejected, or pending or accepted to a string outside the four names.
\<close>

definition leaks :: "booking_status \<Rightarrow> booking_status \<Rightarrow> bool" where
  "leaks old new = (seatHolding old \<and> \<not> seatHolding new \<and> \<not> refunds old new)"

text \<open>
  The status changes after which the code leaves the seat counter out of step with the
  bookings.
\<close>

definition unbalanced :: "booking_status \<Rightarrow> booking_status \<Rightarrow> bool" where
  "unbalanced old new = (leaks old new \<or> revives old new)"

fun balancedRequest :: "request \<Rightarrow> store \<Rightarrow> bool" where
  "balancedRequest (SetStatus i t) s =
     (case findById b_id (bookings s) i of None \<Rightarrow> True | Some b \<Rightarrow> \<not> unbalanced (status b) t)"
| "balancedRequest _ s = True"

fun balancedAll :: "request list \<Rightarrow> store \<Rightarrow> bool" where
  "balancedAll [] s = True"
| "balancedAll (q # qs) s = (balancedRequest q s \<and> balancedAll qs (serve q s))"

fun revivalFree :: "request \<Rightarrow> store \<Rightarrow> bool" where
  "revivalFree (SetStatus i t) s =
     (case findById b_id (bookings s) i of None \<Rightarrow> True | Some b \<Rightarrow> \<not> revives (status b) t)"
| "revivalFree _ s = True"

fun revivalFreeAll :: "request list \<Rightarrow> store \<Rightarrow> bool" where
  "revivalFreeAll [] s = True"
| "revivalFreeAll (q # qs) s = (revivalFree q s \<and> revivalFreeAll qs (serve q s))"

text \<open>The transition table of the specification (section 4.2).\<close>

definition inTable :: "booking_status \<Rightarrow> booking_status \<Rightarrow> bool" where
  "inTable old new =
     ((old = pending \<and> (new = accepted \<or> new = rejected \<or> new = cancelled))
      \<or> (old = accepted \<and> new = cancelled))"

subsection \<open>The scenarios of the specification as concrete databases\<close>

definition ride1 :: "int \<Rightarrow> int \<Rightarrow> ride" where
  "ride1 tot avail =
     \<lparr>r_id = ''r1'', driverId = ''d1'', vehicleId = None, departureTime = 0,
      seatsTotal = tot, seatsAvailable = avail, costPerSeat = 100, isActive = True,
      rstatus = scheduled\<rparr>"

definition booking1 :: "string \<Rightarrow> booking_status \<Rightarrow> int \<Rightarrow> booking" where
  "booking1 i t n = \<lparr>b_id = i, rideId = ''r1'', passengerId = ''p1'', status = t, seatsBooked = n\<rparr>"

definition db :: "ride list \<Rightarrow> booking list \<Rightarrow> store" where
  "db rs bs = \<lparr>users = [], vehicles = [], rides = rs, bookings = bs\<rparr>"

definition scenarioA :: store where
  "scenarioA = db [ride1 3 3] []"

text \<open>A run of requests against scenario A that follows the transition table.\<close>

definition busyDay :: "request list" where
  "busyDay = [RequestBooking ''b1'' ''r1'' ''p1'' (Some 2), SetStatus ''b1'' accepted,
     RequestBooking ''b2'' ''r1'' ''p2'' None, SetStatus ''b2'' rejected,
     SetStatus ''b1'' cancelled, RequestBooking ''b3'' ''r1'' ''p3'' (Some 3)]"

text \<open>
  A run that releases seats without refund (accepted to rejected, and pending to a string
  outside the four names) but revives no booking.
\<close>

definition leakyDay :: "request list" where
  "leakyDay = [RequestBooking ''b1'' ''r1'' ''p1'' (Some 2), SetStatus ''b1'' accepted,
     SetStatus ''b1'' rejected, RequestBooking ''b2'' ''r1'' ''p2'' (Some 1),
     SetStatus ''b2'' ''completed'', SetStatus ''b2'' cancelled]"

definition scenarioB :: store where
  "scenarioB = db [ride1 1 1] []"

definition scenarioC :: store where
  "scenarioC = db [ride1 3 1] [booking1 ''b1'' pending 2]"

definition scenarioD :: store where
  "scenarioD = db [ride1 3 0] [booking1 ''b1'' pending 1, booking1 ''b2'' pending 2]"

definition scenarioE :: store where
  "scenarioE = db [ride1 3 1] [booking1 ''b1'' accepted 2]"

section \<open>Basic facts about the collection primitives and the storage methods\<close>

lemma findById_updateFirst_same:
  assumes "\<And>d. key (f d) = key d"
  shows "findById key (updateFirst (\<lambda>d. key d = i) f ds) i = map_option f (findById key ds i)"
  using assms by (induction ds) (auto simp: findById_def)

lemma findById_key: "findById key ds i = Some d \<Longrightarrow> key d = i"
  by (induction ds) (auto simp: findById_def split: if_splits)

lemma b_id_applyBookingPatch [simp]: "b_id (applyBookingPatch data b) = b_id b"
  by (simp add: applyBookingPatch_def)

lemma r_id_applyRidePatch [simp]: "r_id (applyRidePatch data r) = r_id r"
  by (simp add: applyRidePatch_def)

lemma applyRidePatch_seatsPatch [simp]: "applyRidePatch (seatsPatch n) r = r\<lparr>seatsAvailable := n\<rparr>"
  by (simp add: applyRidePatch_def seatsPatch_def)

lemma applyRidePatch_seatsPatch_fun [simp]: "applyRidePatch (seatsPatch n) = seatsAvailable_update (\<lambda>_. n)"
  by (rule ext) simp

lemma applyBookingPatch_statusPatch [simp]: "applyBookingPatch (statusPatch t) b = b\<lparr>status := t\<rparr>"
  by (simp add: applyBookingPatch_def statusPatch_def)

lemma p_status_statusPatch [simp]: "p_status (statusPatch t) = Some t"
  by (simp add: statusPatch_def)

text \<open>updateBooking in one equation, once the booking is known to exist.\<close>
lemma updateBooking_found:
  assumes "findById b_id (bookings s) i = Some b"
  shows "updateBooking i data s =
    (let b' = applyBookingPatch data b;
         s1 = s\<lparr>bookings := updateFirst (\<lambda>x. b_id x = i) (applyBookingPatch data) (bookings s)\<rparr>
     in (Some b',
         case findById r_id (rides s) (rideId b') of
           None \<Rightarrow> s1
         | Some r \<Rightarrow>
             if (p_status data = Some rejected \<and> status b = pending)
                \<or> (p_status data = Some cancelled \<and> (status b = accepted \<or> status b = pending))
             then s1\<lparr>rides := updateFirst (\<lambda>x. r_id x = rideId b')
                        (\<lambda>x. x\<lparr>seatsAvailable := seatsAvailable r + seatsBooked b'\<rparr>) (rides s)\<rparr>
             else s1))"
proof -
  let ?b = "applyBookingPatch data b"
  let ?s1 = "s\<lparr>bookings := updateFirst (\<lambda>x. b_id x = i) (applyBookingPatch data) (bookings s)\<rparr>"
  have found: "findById b_id (bookings ?s1) i = Some ?b"
    using assms by (simp add: findById_updateFirst_same)
  show ?thesis
  proof (cases "findById r_id (rides s) (rideId ?b)")
    case None
    with assms found show ?thesis
      by (simp add: updateBooking_def getBooking_def getRide_def Let_def)
  next
    case (Some r)
    then have key: "r_id r = rideId ?b" by (rule findById_key)
    show ?thesis
    proof (cases "p_status data = Some rejected \<and> status b = pending")
      case True
      then have "p_status data \<noteq> Some cancelled" by simp
      with True Some key assms found show ?thesis
        by (simp add: updateBooking_def getBooking_def getRide_def updateRide_def Let_def)
    next
      case False
      then have g1: "(p_status data = Some rejected \<and> status b = pending) = False" by simp
      show ?thesis
      proof (cases "p_status data = Some cancelled \<and> (status b = accepted \<or> status b = pending)")
        case True
        then have g2: "(p_status data = Some cancelled \<and> (status b = accepted \<or> status b = pending)) = True"
          by simp
        from Some key assms found show ?thesis
          by (simp add: updateBooking_def getBooking_def getRide_def updateRide_def Let_def g1 g2)
      next
        case False
        then have g2: "(p_status data = Some cancelled \<and> (status b = accepted \<or> status b = pending)) = False"
          by simp
        from Some key assms found show ?thesis
          by (simp add: updateBooking_def getBooking_def getRide_def updateRide_def Let_def g1 g2)
      qed
    qed
  qed
qed

lemma updateBooking_missing:
  "findById b_id (bookings s) i = None \<Longrightarrow> updateBooking i data s = (None, s)"
  by (simp add: updateBooking_def getBooking_def)


lemma requestBooking_invalid:
  "seatsOrDefault body_seats < 1 \<Longrightarrow> requestBooking newId rid pid body_seats s = (Inl ValidationError, s)"
  by (simp add: requestBooking_def)

lemma requestBooking_no_ride:
  "1 \<le> seatsOrDefault body_seats \<Longrightarrow> findById r_id (rides s) rid = None
   \<Longrightarrow> requestBooking newId rid pid body_seats s = (Inl NotFound, s)"
  by (simp add: requestBooking_def getRide_def)

lemma requestBooking_full:
  "1 \<le> seatsOrDefault body_seats \<Longrightarrow> findById r_id (rides s) rid = Some r
   \<Longrightarrow> seatsAvailable r < seatsOrDefault body_seats
   \<Longrightarrow> requestBooking newId rid pid body_seats s = (Inl InsufficientSeats, s)"
  by (simp add: requestBooking_def getRide_def)

lemma requestBooking_ok:
  "1 \<le> seatsOrDefault body_seats \<Longrightarrow> findById r_id (rides s) rid = Some r
   \<Longrightarrow> seatsOrDefault body_seats \<le> seatsAvailable r
   \<Longrightarrow> findById b_id (bookings s) newId = None
   \<Longrightarrow> requestBooking newId rid pid body_seats s =
       (Inr \<lparr>b_id = newId, rideId = rid, passengerId = pid, status = pending,
             seatsBooked = seatsOrDefault body_seats\<rparr>,
        s\<lparr>bookings := bookings s @ [\<lparr>b_id = newId, rideId = rid, passengerId = pid,
               status = pending, seatsBooked = seatsOrDefault body_seats\<rparr>],
          rides := updateFirst (\<lambda>x. r_id x = rid)
                     (seatsAvailable_update (\<lambda>_. seatsAvailable r - seatsOrDefault body_seats))
                     (rides s)\<rparr>)"
  by (simp add: requestBooking_def getRide_def createBooking_def updateRide_def Let_def)

lemma requestBooking_error_store:
  "fst (requestBooking newId rid pid body_seats s) = Inl e
   \<Longrightarrow> snd (requestBooking newId rid pid body_seats s) = s"
  by (auto simp: requestBooking_def getRide_def createBooking_def Let_def
      split: option.splits if_splits)

lemma updateFirst_distinct:
  "distinct (map key ds) \<Longrightarrow>
   updateFirst (\<lambda>d. key d = i) f ds = map (\<lambda>d. if key d = i then f d else d) ds"
proof (induction ds)
  case Nil
  then show ?case by simp
next
  case (Cons d ds)
  show ?case
  proof (cases "key d = i")
    case True
    with Cons.prems have "\<forall>x\<in>set ds. key x \<noteq> i" by (auto simp: image_iff)
    then have "map (\<lambda>d. if key d = i then f d else d) ds = ds"
      by (simp add: map_idI)
    with True show ?thesis by simp
  next
    case False
    with Cons show ?thesis by simp
  qed
qed

lemma deleteFirst_distinct:
  "distinct (map key ds) \<Longrightarrow> deleteFirst (\<lambda>d. key d = i) ds = filter (\<lambda>d. key d \<noteq> i) ds"
proof (induction ds)
  case Nil
  then show ?case by simp
next
  case (Cons d ds)
  show ?case
  proof (cases "key d = i")
    case True
    with Cons.prems have "\<forall>x\<in>set ds. key x \<noteq> i" by (auto simp: image_iff)
    then have "filter (\<lambda>d. key d \<noteq> i) ds = ds"
      by (simp add: filter_id_conv)
    with True show ?thesis by simp
  next
    case False
    with Cons show ?thesis by simp
  qed
qed

lemma map_key_updateFirst:
  "(\<And>d. key (f d) = key d) \<Longrightarrow> map key (updateFirst p f ds) = map key ds"
  by (induction ds) auto

lemma findById_None_iff: "findById key ds i = None \<longleftrightarrow> (\<forall>d\<in>set ds. key d \<noteq> i)"
  by (induction ds) (auto simp: findById_def)

lemma findById_mem: "findById key ds i = Some d \<Longrightarrow> d \<in> set ds"
  by (induction ds) (auto simp: findById_def split: if_splits)

lemma findById_unique:
  "distinct (map key ds) \<Longrightarrow> d \<in> set ds \<Longrightarrow> findById key ds (key d) = Some d"
  by (induction ds) (auto simp: findById_def)

lemma reservedSeats_Nil [simp]: "reservedSeats [] rid = 0"
  by (simp add: reservedSeats_def)

lemma reservedSeats_Cons [simp]:
  "reservedSeats (b # bs) rid = seatsHeld rid b + reservedSeats bs rid"
  by (simp add: reservedSeats_def seatsHeld_def)

lemma reservedSeats_append [simp]:
  "reservedSeats (bs @ cs) rid = reservedSeats bs rid + reservedSeats cs rid"
  by (induction bs) auto

lemma reservedSeats_updateFirst:
  "findById b_id bs i = Some b \<Longrightarrow>
   reservedSeats (updateFirst (\<lambda>x. b_id x = i) f bs) rid
     = reservedSeats bs rid - seatsHeld rid b + seatsHeld rid (f b)"
  by (induction bs) (auto simp: findById_def split: if_splits)

lemma reservedSeats_map_same:
  "(\<And>b. b \<in> set bs \<Longrightarrow> seatsHeld rid (f b) = seatsHeld rid b) \<Longrightarrow>
   reservedSeats (map f bs) rid = reservedSeats bs rid"
  by (induction bs) auto

lemma reservedSeats_nonneg:
  "list_all (\<lambda>b. 0 \<le> seatsBooked b) bs \<Longrightarrow> 0 \<le> reservedSeats bs rid"
  by (induction bs) (auto simp: seatsHeld_def)

lemma list_all_deleteFirst:
  "list_all P ds \<Longrightarrow> list_all P (deleteFirst p ds)"
  by (induction ds) auto

section \<open>What each request does to the database\<close>

lemma serve_SetStatus_missing:
  "findById b_id (bookings s) i = None \<Longrightarrow> serve (SetStatus i t) s = s"
  by (simp add: setStatus_def updateBooking_missing)

lemma serve_SetStatus_found:
  assumes "findById b_id (bookings s) i = Some b"
  shows "bookings (serve (SetStatus i t) s)
           = updateFirst (\<lambda>x. b_id x = i) (status_update (\<lambda>_. t)) (bookings s)"
    and "rides (serve (SetStatus i t) s)
           = (case findById r_id (rides s) (rideId b) of
                None \<Rightarrow> rides s
              | Some r \<Rightarrow>
                  if refunds (status b) t
                  then updateFirst (\<lambda>x. r_id x = rideId b)
                         (seatsAvailable_update (\<lambda>_. seatsAvailable r + seatsBooked b)) (rides s)
                  else rides s)"
proof -
  have eta: "applyBookingPatch (statusPatch t) = status_update (\<lambda>_. t)"
    by (rule ext) simp
  show "bookings (serve (SetStatus i t) s)
           = updateFirst (\<lambda>x. b_id x = i) (status_update (\<lambda>_. t)) (bookings s)"
    using assms
    by (simp add: setStatus_def updateBooking_found Let_def eta split: option.splits)
  show "rides (serve (SetStatus i t) s)
           = (case findById r_id (rides s) (rideId b) of
                None \<Rightarrow> rides s
              | Some r \<Rightarrow>
                  if refunds (status b) t
                  then updateFirst (\<lambda>x. r_id x = rideId b)
                         (seatsAvailable_update (\<lambda>_. seatsAvailable r + seatsBooked b)) (rides s)
                  else rides s)"
    using assms
    by (auto simp: setStatus_def updateBooking_found Let_def refunds_def split: option.splits)
qed

lemma serve_RequestBooking_cases:
  obtains (refused) "serve (RequestBooking newId rid pid body_seats) s = s"
  | (booked) r where "findById r_id (rides s) rid = Some r"
      and "1 \<le> seatsOrDefault body_seats" and "seatsOrDefault body_seats \<le> seatsAvailable r"
      and "findById b_id (bookings s) newId = None"
      and "serve (RequestBooking newId rid pid body_seats) s =
        s\<lparr>bookings := bookings s @ [\<lparr>b_id = newId, rideId = rid, passengerId = pid,
               status = pending, seatsBooked = seatsOrDefault body_seats\<rparr>],
          rides := updateFirst (\<lambda>x. r_id x = rid)
                     (seatsAvailable_update (\<lambda>_. seatsAvailable r - seatsOrDefault body_seats))
                     (rides s)\<rparr>"
proof (cases "fst (requestBooking newId rid pid body_seats s)")
  case (Inl e)
  then have "serve (RequestBooking newId rid pid body_seats) s = s"
    by (simp add: requestBooking_error_store)
  then show ?thesis by (rule refused)
next
  case (Inr b)
  then obtain r where r: "findById r_id (rides s) rid = Some r"
      "1 \<le> seatsOrDefault body_seats" "seatsOrDefault body_seats \<le> seatsAvailable r"
      "findById b_id (bookings s) newId = None"
    by (auto simp: requestBooking_def getRide_def createBooking_def Let_def
        split: option.splits if_splits)
  then show ?thesis
    using requestBooking_ok [OF r(2) r(1) r(3) r(4), of pid] booked [of r] by simp
qed


lemma rejectEach_frame:
  "users (rejectEach found s) = users s \<and> vehicles (rejectEach found s) = vehicles s
   \<and> rides (rejectEach found s) = rides s"
  by (induction found arbitrary: s) auto

lemma rejectEach_bookings:
  "distinct (map b_id (bookings s)) \<Longrightarrow>
   bookings (rejectEach found s)
     = map (\<lambda>x. if b_id x \<in> b_id ` set found then x\<lparr>status := rejected\<rparr> else x) (bookings s)"
proof (induction found arbitrary: s)
  case Nil
  then show ?case by simp
next
  case (Cons b found)
  let ?s = "s\<lparr>bookings := updateFirst (\<lambda>x. b_id x = b_id b)
                 (applyBookingPatch (statusPatch rejected)) (bookings s)\<rparr>"
  have step: "bookings ?s = map (\<lambda>x. if b_id x = b_id b then x\<lparr>status := rejected\<rparr> else x) (bookings s)"
    using Cons.prems by (simp add: updateFirst_distinct)
  then have "distinct (map b_id (bookings ?s))"
    using Cons.prems by (simp add: o_def if_distrib cong: if_cong)
  then have "bookings (rejectEach found ?s)
     = map (\<lambda>x. if b_id x \<in> b_id ` set found then x\<lparr>status := rejected\<rparr> else x) (bookings ?s)"
    by (rule Cons.IH)
  then show ?case
    by (simp only: rejectEach.simps step) (auto simp: o_def)
qed

lemma deleteRide_effect:
  assumes "uniqueIds s"
  shows "bookings (snd (deleteRide i s))
           = map (\<lambda>x. if rideId x = i \<and> status x = pending then x\<lparr>status := rejected\<rparr> else x)
               (bookings s)"
    and "rides (snd (deleteRide i s)) = filter (\<lambda>r. r_id r \<noteq> i) (rides s)"
    and "users (snd (deleteRide i s)) = users s"
    and "vehicles (snd (deleteRide i s)) = vehicles s"
    and "fst (deleteRide i s) = (findById r_id (rides s) i \<noteq> None)"
proof -
  let ?found = "filter (\<lambda>b. rideId b = i \<and> status b = pending) (bookings s)"
  have d: "distinct (map b_id (bookings s))" "distinct (map r_id (rides s))"
    using assms by (simp_all add: uniqueIds_def)
  have inj: "inj_on b_id (set (bookings s))"
    using d(1) by (simp add: distinct_map)
  have "\<And>x. x \<in> set (bookings s) \<Longrightarrow>
      (b_id x \<in> b_id ` set ?found) = (rideId x = i \<and> status x = pending)"
    using inj by (auto dest: inj_onD)
  then have "map (\<lambda>x. if b_id x \<in> b_id ` set ?found then x\<lparr>status := rejected\<rparr> else x) (bookings s)
      = map (\<lambda>x. if rideId x = i \<and> status x = pending then x\<lparr>status := rejected\<rparr> else x) (bookings s)"
    by (intro map_cong) auto
  then show "bookings (snd (deleteRide i s))
           = map (\<lambda>x. if rideId x = i \<and> status x = pending then x\<lparr>status := rejected\<rparr> else x)
               (bookings s)"
    using rejectEach_bookings [OF d(1), of ?found] by (simp add: deleteRide_def Let_def)
  show "rides (snd (deleteRide i s)) = filter (\<lambda>r. r_id r \<noteq> i) (rides s)"
    using d(2) by (simp add: deleteRide_def Let_def rejectEach_frame deleteFirst_distinct)
  show "users (snd (deleteRide i s)) = users s"
    by (simp add: deleteRide_def Let_def rejectEach_frame)
  show "vehicles (snd (deleteRide i s)) = vehicles s"
    by (simp add: deleteRide_def Let_def rejectEach_frame)
  show "fst (deleteRide i s) = (findById r_id (rides s) i \<noteq> None)"
    by (simp add: deleteRide_def Let_def rejectEach_frame)
qed


lemma serve_uniqueIds: "uniqueIds s \<Longrightarrow> uniqueIds (serve q s)"
proof (cases q)
  case (RequestBooking newId rid pid body_seats)
  assume u: "uniqueIds s"
  show ?thesis
  proof (cases rule: serve_RequestBooking_cases [of newId rid pid body_seats s])
    case refused
    with u RequestBooking show ?thesis by simp
  next
    case (booked r)
    from booked(4) have "newId \<notin> b_id ` set (bookings s)"
      by (auto simp: findById_None_iff)
    with u booked(5) RequestBooking show ?thesis
      by (simp add: uniqueIds_def map_key_updateFirst)
  qed
next
  case (SetStatus i t)
  assume u: "uniqueIds s"
  show ?thesis
  proof (cases "findById b_id (bookings s) i")
    case None
    with u SetStatus show ?thesis by (simp only: serve_SetStatus_missing)
  next
    case (Some b)
    from u show ?thesis
      unfolding SetStatus uniqueIds_def serve_SetStatus_found [OF Some]
      by (simp add: map_key_updateFirst split: option.splits)
  qed
next
  case (DeleteRide i)
  assume u: "uniqueIds s"
  then show ?thesis
    unfolding DeleteRide uniqueIds_def serve.simps deleteRide_effect [OF u]
    by (simp add: distinct_map_filter o_def if_distrib cong: if_cong)
qed

lemma seatConservation_iff:
  "seatConservation s \<longleftrightarrow>
   (\<forall>x\<in>set (rides s). seatsAvailable x + reservedSeats (bookings s) (r_id x) = seatsTotal x)"
  by (simp add: seatConservation_def list_all_iff)

lemma seatsHeld_other_ride: "rideId b \<noteq> rid \<Longrightarrow> seatsHeld rid b = 0"
  by (simp add: seatsHeld_def holdsSeats_def)

lemma refunds_releases: "refunds old new \<Longrightarrow> seatHolding old \<and> \<not> seatHolding new"
  by (auto simp: refunds_def seatHolding_def)

lemma seatsHeld_change:
  "seatsHeld (rideId b) (b\<lparr>status := t\<rparr>)
     = (if refunds (status b) t \<or> leaks (status b) t then seatsHeld (rideId b) b - seatsBooked b
        else if revives (status b) t then seatsHeld (rideId b) b + seatsBooked b
        else seatsHeld (rideId b) b)"
  using refunds_releases [of "status b" t]
  by (auto simp: seatsHeld_def holdsSeats_def leaks_def revives_def)

lemma serve_SetStatus_conservation:
  assumes u: "uniqueIds s" and c: "seatConservation s"
    and bal: "balancedRequest (SetStatus i t) s"
  shows "seatConservation (serve (SetStatus i t) s)"
proof (cases "findById b_id (bookings s) i")
  case None
  with c show ?thesis by (simp only: serve_SetStatus_missing)
next
  case (Some b)
  from bal Some have nb: "\<not> unbalanced (status b) t" by simp
  from u have d: "distinct (map r_id (rides s))" by (simp add: uniqueIds_def)
  have held: "reservedSeats (bookings (serve (SetStatus i t) s)) rid
      = reservedSeats (bookings s) rid - seatsHeld rid b + seatsHeld rid (b\<lparr>status := t\<rparr>)" for rid
    by (simp del: serve.simps add: serve_SetStatus_found(1) [OF Some] reservedSeats_updateFirst [OF Some])
  show ?thesis
  proof (cases "findById r_id (rides s) (rideId b)")
    case None
    then have rs: "rides (serve (SetStatus i t) s) = rides s"
      by (simp del: serve.simps add: serve_SetStatus_found(2) [OF Some])
    from None have "\<forall>x\<in>set (rides s). r_id x \<noteq> rideId b"
      by (auto simp: findById_None_iff)
    with c show ?thesis
      by (auto simp del: serve.simps simp: seatConservation_iff rs held seatsHeld_other_ride)
  next
    case (Some r)
    note ride = this
    show ?thesis
    proof (cases "refunds (status b) t")
      case False
      with ride have rs: "rides (serve (SetStatus i t) s) = rides s"
        by (simp del: serve.simps
            add: serve_SetStatus_found(2) [OF \<open>findById b_id (bookings s) i = Some b\<close>])
      have same: "seatsHeld rid (b\<lparr>status := t\<rparr>) = seatsHeld rid b" for rid
      proof (cases "rideId b = rid")
        case True
        with False nb seatsHeld_change [of b t] show ?thesis by (auto simp: unbalanced_def)
      next
        case False
        then show ?thesis by (simp add: seatsHeld_other_ride)
      qed
      from c show ?thesis
        by (simp del: serve.simps add: seatConservation_iff rs held same)
    next
      case True
      with ride have rs: "rides (serve (SetStatus i t) s)
          = map (\<lambda>x. if r_id x = rideId b
                      then x\<lparr>seatsAvailable := seatsAvailable r + seatsBooked b\<rparr> else x) (rides s)"
        by (simp del: serve.simps
            add: serve_SetStatus_found(2) [OF \<open>findById b_id (bookings s) i = Some b\<close>]
              updateFirst_distinct [OF d])
      have the_ride: "x = r" if "x \<in> set (rides s)" "r_id x = rideId b" for x
        using findById_unique [OF d that(1)] ride that(2) by simp
      have own: "seatsHeld (rideId b) (b\<lparr>status := t\<rparr>) = seatsHeld (rideId b) b - seatsBooked b"
        using True seatsHeld_change [of b t] by simp
      show ?thesis
        unfolding seatConservation_iff rs
      proof
        fix y assume "y \<in> set (map (\<lambda>x. if r_id x = rideId b
                      then x\<lparr>seatsAvailable := seatsAvailable r + seatsBooked b\<rparr> else x) (rides s))"
        then obtain x where x: "x \<in> set (rides s)"
          and y: "y = (if r_id x = rideId b
                      then x\<lparr>seatsAvailable := seatsAvailable r + seatsBooked b\<rparr> else x)"
          by auto
        from c x have cx: "seatsAvailable x + reservedSeats (bookings s) (r_id x) = seatsTotal x"
          by (simp add: seatConservation_iff)
        show "seatsAvailable y + reservedSeats (bookings (serve (SetStatus i t) s)) (r_id y) = seatsTotal y"
        proof (cases "r_id x = rideId b")
          case True
          with x have "x = r" by (rule the_ride)
          with True y cx own show ?thesis by (simp del: serve.simps add: held)
        next
          case False
          with y cx show ?thesis by (simp del: serve.simps add: held seatsHeld_other_ride)
        qed
      qed
    qed
  qed
qed


lemma serve_RequestBooking_conservation:
  assumes u: "uniqueIds s" and c: "seatConservation s"
  shows "seatConservation (serve (RequestBooking newId rid pid body_seats) s)"
proof (cases rule: serve_RequestBooking_cases [of newId rid pid body_seats s])
  case refused
  with c show ?thesis by (simp del: serve.simps)
next
  case (booked r)
  let ?n = "seatsOrDefault body_seats"
  from u have d: "distinct (map r_id (rides s))" by (simp add: uniqueIds_def)
  have the_ride: "x = r" if "x \<in> set (rides s)" "r_id x = rid" for x
    using findById_unique [OF d that(1)] booked(1) that(2) by simp
  have held: "seatsHeld j \<lparr>b_id = newId, rideId = rid, passengerId = pid, status = pending,
      seatsBooked = ?n\<rparr> = (if j = rid then ?n else 0)" for j
    by (auto simp: seatsHeld_def holdsSeats_def seatHolding_def)
  have rs: "rides (serve (RequestBooking newId rid pid body_seats) s)
      = map (\<lambda>x. if r_id x = rid then x\<lparr>seatsAvailable := seatsAvailable r - ?n\<rparr> else x) (rides s)"
    unfolding booked(5) by (simp add: updateFirst_distinct [OF d])
  have bs: "reservedSeats (bookings (serve (RequestBooking newId rid pid body_seats) s)) j
      = reservedSeats (bookings s) j + (if j = rid then ?n else 0)" for j
    unfolding booked(5) by (simp add: held)
  show ?thesis
    unfolding seatConservation_iff rs
  proof
    fix y assume "y \<in> set (map (\<lambda>x. if r_id x = rid
        then x\<lparr>seatsAvailable := seatsAvailable r - ?n\<rparr> else x) (rides s))"
    then obtain x where x: "x \<in> set (rides s)"
      and y: "y = (if r_id x = rid then x\<lparr>seatsAvailable := seatsAvailable r - ?n\<rparr> else x)"
      by auto
    from c x have cx: "seatsAvailable x + reservedSeats (bookings s) (r_id x) = seatsTotal x"
      by (simp add: seatConservation_iff)
    show "seatsAvailable y
        + reservedSeats (bookings (serve (RequestBooking newId rid pid body_seats) s)) (r_id y)
        = seatsTotal y"
    proof (cases "r_id x = rid")
      case True
      with x have "x = r" by (rule the_ride)
      with True y cx show ?thesis by (simp del: serve.simps add: bs)
    next
      case False
      with y cx show ?thesis by (simp del: serve.simps add: bs)
    qed
  qed
qed

lemma serve_DeleteRide_conservation:
  assumes u: "uniqueIds s" and c: "seatConservation s"
  shows "seatConservation (serve (DeleteRide i) s)"
proof -
  have "reservedSeats (map (\<lambda>x. if rideId x = i \<and> status x = pending
            then x\<lparr>status := rejected\<rparr> else x) (bookings s)) rid
        = reservedSeats (bookings s) rid" if "rid \<noteq> i" for rid
    using that by (intro reservedSeats_map_same) (simp add: seatsHeld_other_ride)
  with c show ?thesis
    unfolding serve.simps seatConservation_iff deleteRide_effect [OF u]
    by simp
qed

lemma serve_conservation:
  "uniqueIds s \<Longrightarrow> seatConservation s \<Longrightarrow> balancedRequest q s \<Longrightarrow> seatConservation (serve q s)"
  by (cases q)
     (simp_all only: serve_RequestBooking_conservation serve_SetStatus_conservation
        serve_DeleteRide_conservation)

lemma serveAll_invariant:
  "uniqueIds s \<Longrightarrow> seatConservation s \<Longrightarrow> balancedAll qs s
   \<Longrightarrow> uniqueIds (serveAll qs s) \<and> seatConservation (serveAll qs s)"
proof (induction qs arbitrary: s)
  case Nil
  then show ?case by simp
next
  case (Cons q qs)
  from Cons.prems have "uniqueIds (serve q s)" "seatConservation (serve q s)"
      "balancedAll qs (serve q s)"
    by (simp_all del: serve.simps add: serve_uniqueIds serve_conservation)
  then show ?case
    using Cons.IH [of "serve q s"] by (simp del: serve.simps)
qed

section \<open>Invariants along a run of requests\<close>

lemma seatsBooked_updateFirst:
  "(\<And>d. seatsBooked (f d) = seatsBooked d) \<Longrightarrow>
   list_all (\<lambda>b. 0 \<le> seatsBooked b) (updateFirst p f ds) = list_all (\<lambda>b. 0 \<le> seatsBooked b) ds"
  by (induction ds) auto

lemma seatsAvailable_updateFirst:
  "list_all (\<lambda>r. 0 \<le> seatsAvailable r) rs \<Longrightarrow> 0 \<le> n \<Longrightarrow>
   list_all (\<lambda>r. 0 \<le> seatsAvailable r) (updateFirst p (seatsAvailable_update (\<lambda>_. n)) rs)"
  by (induction rs) auto

lemma rejectEach_seatsBooked:
  "list_all (\<lambda>b. 0 \<le> seatsBooked b) (bookings s)
   \<Longrightarrow> list_all (\<lambda>b. 0 \<le> seatsBooked b) (bookings (rejectEach found s))"
  by (induction found arbitrary: s) (simp_all add: seatsBooked_updateFirst)

lemma serve_nonNegative:
  assumes n: "seatsNonNegative s"
  shows "seatsNonNegative (serve q s)"
proof (cases q)
  case (RequestBooking newId rid pid body_seats)
  show ?thesis
  proof (cases rule: serve_RequestBooking_cases [of newId rid pid body_seats s])
    case refused
    with n RequestBooking show ?thesis by (simp del: serve.simps)
  next
    case (booked r)
    with n show ?thesis
      unfolding RequestBooking booked(5) seatsNonNegative_def
      by (simp add: seatsAvailable_updateFirst)
  qed
next
  case (SetStatus i t)
  show ?thesis
  proof (cases "findById b_id (bookings s) i")
    case None
    with n SetStatus show ?thesis by (simp only: serve_SetStatus_missing)
  next
    case (Some b)
    then have b: "0 \<le> seatsBooked b"
      using n by (auto simp: seatsNonNegative_def list_all_iff dest: findById_mem)
    have r: "0 \<le> seatsAvailable r" if "findById r_id (rides s) (rideId b) = Some r" for r
      using n that by (auto simp: seatsNonNegative_def list_all_iff dest: findById_mem)
    from n b r show ?thesis
      unfolding SetStatus seatsNonNegative_def serve_SetStatus_found [OF Some]
      by (simp add: seatsBooked_updateFirst seatsAvailable_updateFirst split: option.splits)
  qed
next
  case (DeleteRide i)
  with n show ?thesis
    by (simp add: seatsNonNegative_def deleteRide_def Let_def rejectEach_frame
        rejectEach_seatsBooked list_all_deleteFirst)
qed

text \<open>Every transition of the specification's table is one the code keeps in balance.\<close>

lemma inTable_balanced: "inTable old new \<Longrightarrow> \<not> unbalanced old new"
  by (auto simp: inTable_def unbalanced_def leaks_def revives_def refunds_def seatHolding_def)

text \<open>The two kinds of unbalanced status change, spelled out.\<close>

lemma leaks_iff:
  "leaks old new \<longleftrightarrow>
     (old = accepted \<and> new = rejected)
     \<or> ((old = pending \<or> old = accepted)
         \<and> new \<noteq> pending \<and> new \<noteq> accepted \<and> new \<noteq> rejected \<and> new \<noteq> cancelled)"
  by (auto simp: leaks_def refunds_def seatHolding_def)

lemma revives_iff:
  "revives old new \<longleftrightarrow> old \<noteq> pending \<and> old \<noteq> accepted \<and> (new = pending \<or> new = accepted)"
  by (auto simp: revives_def seatHolding_def)

lemma balanced_revivalFree: "balancedRequest q s \<Longrightarrow> revivalFree q s"
  by (cases q) (auto simp: unbalanced_def split: option.splits)

lemma seatsCovered_iff:
  "seatsCovered s \<longleftrightarrow>
   (\<forall>x\<in>set (rides s). seatsAvailable x + reservedSeats (bookings s) (r_id x) \<le> seatsTotal x)"
  by (simp add: seatsCovered_def list_all_iff)

lemma conservation_covered: "seatConservation s \<Longrightarrow> seatsCovered s"
  by (simp add: seatConservation_iff seatsCovered_iff)

lemma serve_SetStatus_covered:
  assumes u: "uniqueIds s" and c: "seatsCovered s" and n: "seatsNonNegative s"
    and free: "revivalFree (SetStatus i t) s"
  shows "seatsCovered (serve (SetStatus i t) s)"
proof (cases "findById b_id (bookings s) i")
  case None
  with c show ?thesis by (simp only: serve_SetStatus_missing)
next
  case (Some b)
  from free Some have nr: "\<not> revives (status b) t" by simp
  from Some n have nb: "0 \<le> seatsBooked b"
    by (auto simp: seatsNonNegative_def list_all_iff dest: findById_mem)
  from u have d: "distinct (map r_id (rides s))" by (simp add: uniqueIds_def)
  have held: "reservedSeats (bookings (serve (SetStatus i t) s)) rid
      = reservedSeats (bookings s) rid - seatsHeld rid b + seatsHeld rid (b\<lparr>status := t\<rparr>)" for rid
    by (simp del: serve.simps add: serve_SetStatus_found(1) [OF Some] reservedSeats_updateFirst [OF Some])
  have other: "seatsHeld rid (b\<lparr>status := t\<rparr>) = seatsHeld rid b" if "rideId b \<noteq> rid" for rid
    using that by (simp add: seatsHeld_other_ride)
  show ?thesis
  proof (cases "findById r_id (rides s) (rideId b)")
    case None
    then have rs: "rides (serve (SetStatus i t) s) = rides s"
      by (simp del: serve.simps add: serve_SetStatus_found(2) [OF Some])
    from None have "\<forall>x\<in>set (rides s). r_id x \<noteq> rideId b"
      by (auto simp: findById_None_iff)
    with c show ?thesis
      by (auto simp del: serve.simps simp: seatsCovered_iff rs held seatsHeld_other_ride)
  next
    case (Some r)
    note ride = this
    show ?thesis
    proof (cases "refunds (status b) t")
      case False
      with ride have rs: "rides (serve (SetStatus i t) s) = rides s"
        by (simp del: serve.simps
            add: serve_SetStatus_found(2) [OF \<open>findById b_id (bookings s) i = Some b\<close>])
      have le: "seatsHeld rid (b\<lparr>status := t\<rparr>) \<le> seatsHeld rid b" for rid
      proof (cases "rideId b = rid")
        case True
        with False nr nb seatsHeld_change [of b t] show ?thesis by auto
      next
        case False
        then show ?thesis by (simp add: other)
      qed
      show ?thesis
        unfolding seatsCovered_iff rs
      proof
        fix x assume x: "x \<in> set (rides s)"
        with c have "seatsAvailable x + reservedSeats (bookings s) (r_id x) \<le> seatsTotal x"
          by (simp add: seatsCovered_iff)
        with le [of "r_id x"]
        show "seatsAvailable x + reservedSeats (bookings (serve (SetStatus i t) s)) (r_id x)
            \<le> seatsTotal x"
          by (simp del: serve.simps add: held)
      qed
    next
      case True
      with ride have rs: "rides (serve (SetStatus i t) s)
          = map (\<lambda>x. if r_id x = rideId b
                      then x\<lparr>seatsAvailable := seatsAvailable r + seatsBooked b\<rparr> else x) (rides s)"
        by (simp del: serve.simps
            add: serve_SetStatus_found(2) [OF \<open>findById b_id (bookings s) i = Some b\<close>]
              updateFirst_distinct [OF d])
      have the_ride: "x = r" if "x \<in> set (rides s)" "r_id x = rideId b" for x
        using findById_unique [OF d that(1)] ride that(2) by simp
      have own: "seatsHeld (rideId b) (b\<lparr>status := t\<rparr>) = seatsHeld (rideId b) b - seatsBooked b"
        using True seatsHeld_change [of b t] by simp
      show ?thesis
        unfolding seatsCovered_iff rs
      proof
        fix y assume "y \<in> set (map (\<lambda>x. if r_id x = rideId b
                      then x\<lparr>seatsAvailable := seatsAvailable r + seatsBooked b\<rparr> else x) (rides s))"
        then obtain x where x: "x \<in> set (rides s)"
          and y: "y = (if r_id x = rideId b
                      then x\<lparr>seatsAvailable := seatsAvailable r + seatsBooked b\<rparr> else x)"
          by auto
        from c x have cx: "seatsAvailable x + reservedSeats (bookings s) (r_id x) \<le> seatsTotal x"
          by (simp add: seatsCovered_iff)
        show "seatsAvailable y + reservedSeats (bookings (serve (SetStatus i t) s)) (r_id y) \<le> seatsTotal y"
        proof (cases "r_id x = rideId b")
          case True
          with x have "x = r" by (rule the_ride)
          with True y cx own show ?thesis by (simp del: serve.simps add: held)
        next
          case False
          with y cx show ?thesis by (simp del: serve.simps add: held seatsHeld_other_ride)
        qed
      qed
    qed
  qed
qed

lemma serve_RequestBooking_covered:
  assumes u: "uniqueIds s" and c: "seatsCovered s"
  shows "seatsCovered (serve (RequestBooking newId rid pid body_seats) s)"
proof (cases rule: serve_RequestBooking_cases [of newId rid pid body_seats s])
  case refused
  with c show ?thesis by (simp del: serve.simps)
next
  case (booked r)
  let ?n = "seatsOrDefault body_seats"
  from u have d: "distinct (map r_id (rides s))" by (simp add: uniqueIds_def)
  have the_ride: "x = r" if "x \<in> set (rides s)" "r_id x = rid" for x
    using findById_unique [OF d that(1)] booked(1) that(2) by simp
  have held: "seatsHeld j \<lparr>b_id = newId, rideId = rid, passengerId = pid, status = pending,
      seatsBooked = ?n\<rparr> = (if j = rid then ?n else 0)" for j
    by (auto simp: seatsHeld_def holdsSeats_def seatHolding_def)
  have rs: "rides (serve (RequestBooking newId rid pid body_seats) s)
      = map (\<lambda>x. if r_id x = rid then x\<lparr>seatsAvailable := seatsAvailable r - ?n\<rparr> else x) (rides s)"
    unfolding booked(5) by (simp add: updateFirst_distinct [OF d])
  have bs: "reservedSeats (bookings (serve (RequestBooking newId rid pid body_seats) s)) j
      = reservedSeats (bookings s) j + (if j = rid then ?n else 0)" for j
    unfolding booked(5) by (simp add: held)
  show ?thesis
    unfolding seatsCovered_iff rs
  proof
    fix y assume "y \<in> set (map (\<lambda>x. if r_id x = rid
        then x\<lparr>seatsAvailable := seatsAvailable r - ?n\<rparr> else x) (rides s))"
    then obtain x where x: "x \<in> set (rides s)"
      and y: "y = (if r_id x = rid then x\<lparr>seatsAvailable := seatsAvailable r - ?n\<rparr> else x)"
      by auto
    from c x have cx: "seatsAvailable x + reservedSeats (bookings s) (r_id x) \<le> seatsTotal x"
      by (simp add: seatsCovered_iff)
    show "seatsAvailable y
        + reservedSeats (bookings (serve (RequestBooking newId rid pid body_seats) s)) (r_id y)
        \<le> seatsTotal y"
    proof (cases "r_id x = rid")
      case True
      with x have "x = r" by (rule the_ride)
      with True y cx show ?thesis by (simp del: serve.simps add: bs)
    next
      case False
      with y cx show ?thesis by (simp del: serve.simps add: bs)
    qed
  qed
qed

lemma serve_DeleteRide_covered:
  assumes u: "uniqueIds s" and c: "seatsCovered s"
  shows "seatsCovered (serve (DeleteRide i) s)"
proof -
  have "reservedSeats (map (\<lambda>x. if rideId x = i \<and> status x = pending
            then x\<lparr>status := rejected\<rparr> else x) (bookings s)) rid
        = reservedSeats (bookings s) rid" if "rid \<noteq> i" for rid
    using that by (intro reservedSeats_map_same) (simp add: seatsHeld_other_ride)
  with c show ?thesis
    unfolding serve.simps seatsCovered_iff deleteRide_effect [OF u]
    by simp
qed

lemma serve_covered:
  "uniqueIds s \<Longrightarrow> seatsCovered s \<Longrightarrow> seatsNonNegative s \<Longrightarrow> revivalFree q s
   \<Longrightarrow> seatsCovered (serve q s)"
  by (cases q)
     (simp_all only: serve_RequestBooking_covered serve_SetStatus_covered serve_DeleteRide_covered)

lemma serveAll_covered:
  "uniqueIds s \<Longrightarrow> seatsCovered s \<Longrightarrow> seatsNonNegative s \<Longrightarrow> revivalFreeAll qs s
   \<Longrightarrow> seatsCovered (serveAll qs s) \<and> seatsNonNegative (serveAll qs s)"
proof (induction qs arbitrary: s)
  case Nil
  then show ?case by simp
next
  case (Cons q qs)
  from Cons.prems have "uniqueIds (serve q s)" "seatsCovered (serve q s)"
      "seatsNonNegative (serve q s)" "revivalFreeAll qs (serve q s)"
    by (simp_all del: serve.simps add: serve_uniqueIds serve_covered serve_nonNegative)
  then show ?case
    using Cons.IH [of "serve q s"] by (simp del: serve.simps)
qed

lemma covered_in_range:
  assumes c: "seatsCovered s" and n: "seatsNonNegative s"
  shows "seatsInRange s"
  unfolding seatsInRange_def list_all_iff
proof
  fix x assume x: "x \<in> set (rides s)"
  have "0 \<le> reservedSeats (bookings s) (r_id x)"
    using n by (simp add: seatsNonNegative_def reservedSeats_nonneg)
  moreover from c x have "seatsAvailable x + reservedSeats (bookings s) (r_id x) \<le> seatsTotal x"
    by (simp add: seatsCovered_iff)
  moreover from n x have "0 \<le> seatsAvailable x"
    by (simp add: seatsNonNegative_def list_all_iff)
  ultimately show "0 \<le> seatsAvailable x \<and> seatsAvailable x \<le> seatsTotal x"
    by simp
qed

lemma revivalFreeAll_take: "revivalFreeAll qs s \<Longrightarrow> revivalFreeAll (take k qs) s"
proof (induction qs arbitrary: k s)
  case Nil
  then show ?case by simp
next
  case (Cons q qs)
  then show ?case by (cases k) (simp_all del: serve.simps)
qed

section \<open>Booking requests\<close>

text \<open>
  Claim C2. For a body that passes the schema (\<open>seatsBooked\<close> at least 1, or absent),
  \<open>POST /api/bookings\<close> answers NotFound when no ride has the given id and
  InsufficientSeats when the request asks for more than the ride's \<open>seatsAvailable\<close>.
  Whenever the handler answers with an error the database is left as it was: no booking
  is created and no seat counter changes. It never answers with a booking when the
  requested seats exceed \<open>seatsAvailable\<close>.
\<close>

theorem requestBooking_failures:
  "(1 \<le> seatsOrDefault body_seats \<and> findById r_id (rides s) rid = None
      \<longrightarrow> requestBooking newId rid pid body_seats s = (Inl NotFound, s))
   \<and> (1 \<le> seatsOrDefault body_seats \<and> findById r_id (rides s) rid = Some r
        \<and> seatsAvailable r < seatsOrDefault body_seats
      \<longrightarrow> requestBooking newId rid pid body_seats s = (Inl InsufficientSeats, s))
   \<and> (fst (requestBooking newId rid pid body_seats s) = Inl e
      \<longrightarrow> snd (requestBooking newId rid pid body_seats s) = s)
   \<and> (findById r_id (rides s) rid = Some r \<and> seatsAvailable r < seatsOrDefault body_seats
      \<longrightarrow> fst (requestBooking newId rid pid body_seats s) \<noteq> Inr b)"
proof (intro conjI impI)
  show "requestBooking newId rid pid body_seats s = (Inl NotFound, s)"
    if "1 \<le> seatsOrDefault body_seats \<and> findById r_id (rides s) rid = None"
    using that by (simp add: requestBooking_no_ride)
  show "requestBooking newId rid pid body_seats s = (Inl InsufficientSeats, s)"
    if "1 \<le> seatsOrDefault body_seats \<and> findById r_id (rides s) rid = Some r
        \<and> seatsAvailable r < seatsOrDefault body_seats"
    using that by (simp add: requestBooking_full)
  show "snd (requestBooking newId rid pid body_seats s) = s"
    if "fst (requestBooking newId rid pid body_seats s) = Inl e"
    using that by (rule requestBooking_error_store)
  show "fst (requestBooking newId rid pid body_seats s) \<noteq> Inr b"
    if "findById r_id (rides s) rid = Some r \<and> seatsAvailable r < seatsOrDefault body_seats"
  proof (cases "seatsOrDefault body_seats < 1")
    case True
    then show ?thesis by (simp add: requestBooking_invalid)
  next
    case False
    with that show ?thesis by (simp add: requestBooking_full)
  qed
qed

theorem requestBooking_failures_witness:
  "requestBooking ''b9'' ''r0'' ''p1'' (Some 2) scenarioB = (Inl NotFound, scenarioB)
   \<and> requestBooking ''b9'' ''r1'' ''p1'' (Some 2) scenarioB = (Inl InsufficientSeats, scenarioB)
   \<and> snd (requestBooking ''b9'' ''r1'' ''p1'' (Some 2) scenarioB) = scenarioB
   \<and> fst (requestBooking ''b9'' ''r1'' ''p1'' (Some 2) scenarioB) \<noteq> Inr (booking1 ''b9'' pending 2)"
proof -
  have n: "1 \<le> seatsOrDefault (Some 2)"
    by (simp add: seatsOrDefault_def)
  have missing: "findById r_id (rides scenarioB) ''r0'' = None"
    by (simp add: scenarioB_def db_def ride1_def findById_def)
  have present: "findById r_id (rides scenarioB) ''r1'' = Some (ride1 1 1)"
    by (simp add: scenarioB_def db_def ride1_def findById_def)
  have short: "seatsAvailable (ride1 1 1) < seatsOrDefault (Some 2)"
    by (simp add: seatsOrDefault_def ride1_def)
  note a = requestBooking_failures [where body_seats = "Some 2" and s = scenarioB
      and rid = "''r0''" and newId = "''b9''" and pid = "''p1''"]
  note b = requestBooking_failures [where body_seats = "Some 2" and s = scenarioB
      and rid = "''r1''" and newId = "''b9''" and pid = "''p1''" and r = "ride1 1 1"
      and e = InsufficientSeats and b = "booking1 ''b9'' pending 2"]
  from a n missing have 1: "requestBooking ''b9'' ''r0'' ''p1'' (Some 2) scenarioB = (Inl NotFound, scenarioB)"
    by blast
  from b n present short
  have 2: "requestBooking ''b9'' ''r1'' ''p1'' (Some 2) scenarioB = (Inl InsufficientSeats, scenarioB)"
    by blast
  from b present short
  have 3: "fst (requestBooking ''b9'' ''r1'' ''p1'' (Some 2) scenarioB) \<noteq> Inr (booking1 ''b9'' pending 2)"
    by blast
  from 1 2 3 show ?thesis by simp
qed

text \<open>
  Claim C5. When the ride exists, the requested number of seats is at least 1 and at most
  the ride's \<open>seatsAvailable\<close>, and the fresh key is unused, \<open>POST /api/bookings\<close>
  succeeds: it appends a booking with status pending and the requested \<open>seatsBooked\<close>,
  and the ride's \<open>seatsAvailable\<close> drops by exactly that number.
\<close>

theorem requestBooking_reserves:
  assumes "findById r_id (rides s) rid = Some r"
    and "1 \<le> n" and "n \<le> seatsAvailable r"
    and "findById b_id (bookings s) newId = None"
  shows "fst (requestBooking newId rid pid (Some n) s)
           = Inr \<lparr>b_id = newId, rideId = rid, passengerId = pid, status = pending, seatsBooked = n\<rparr>
       \<and> bookings (snd (requestBooking newId rid pid (Some n) s))
           = bookings s @ [\<lparr>b_id = newId, rideId = rid, passengerId = pid, status = pending,
                             seatsBooked = n\<rparr>]
       \<and> findById r_id (rides (snd (requestBooking newId rid pid (Some n) s))) rid
           = Some (r\<lparr>seatsAvailable := seatsAvailable r - n\<rparr>)
       \<and> rides (snd (requestBooking newId rid pid (Some n) s))
           = updateFirst (\<lambda>x. r_id x = rid)
               (seatsAvailable_update (\<lambda>_. seatsAvailable r - n)) (rides s)"
proof -
  have n: "seatsOrDefault (Some n) = n" by (simp add: seatsOrDefault_def)
  show ?thesis
    using assms requestBooking_ok [of "Some n" s rid r newId pid]
    by (simp add: n findById_updateFirst_same)
qed

theorem requestBooking_reserves_witness:
  "fst (requestBooking ''b1'' ''r1'' ''p1'' (Some 2) scenarioA) = Inr (booking1 ''b1'' pending 2)
   \<and> bookings (snd (requestBooking ''b1'' ''r1'' ''p1'' (Some 2) scenarioA))
       = [booking1 ''b1'' pending 2]
   \<and> findById r_id (rides (snd (requestBooking ''b1'' ''r1'' ''p1'' (Some 2) scenarioA))) ''r1''
       = Some (ride1 3 1)"
proof -
  have ride: "findById r_id (rides scenarioA) ''r1'' = Some (ride1 3 3)"
    by (simp add: scenarioA_def db_def ride1_def findById_def)
  have lo: "(1::int) \<le> 2" by simp
  have hi: "2 \<le> seatsAvailable (ride1 3 3)" by (simp add: ride1_def)
  have fresh: "findById b_id (bookings scenarioA) ''b1'' = None"
    by (simp add: scenarioA_def db_def findById_def)
  from requestBooking_reserves [OF ride lo hi fresh, of "''p1''"]
  show ?thesis
    by (simp add: scenarioA_def db_def ride1_def booking1_def findById_def)
qed

section \<open>Status changes\<close>

text \<open>
  Claim C6. Setting a pending booking to accepted stores the status accepted and leaves
  every ride as it was (and the users and vehicles too): the seats were reserved when the
  booking was requested, and no second deduction is made.
\<close>

theorem setStatus_accept_keeps_ride:
  assumes "findById b_id (bookings s) i = Some b" and "status b = pending"
  shows "fst (setStatus i accepted s) = Some (b\<lparr>status := accepted\<rparr>)
       \<and> findById b_id (bookings (snd (setStatus i accepted s))) i = Some (b\<lparr>status := accepted\<rparr>)
       \<and> rides (snd (setStatus i accepted s)) = rides s
       \<and> users (snd (setStatus i accepted s)) = users s
       \<and> vehicles (snd (setStatus i accepted s)) = vehicles s"
  using assms
  by (simp add: setStatus_def updateBooking_found Let_def findById_updateFirst_same
      split: option.splits)

theorem setStatus_accept_keeps_ride_witness:
  "fst (setStatus ''b1'' accepted scenarioC) = Some (booking1 ''b1'' accepted 2)
   \<and> findById b_id (bookings (snd (setStatus ''b1'' accepted scenarioC))) ''b1''
       = Some (booking1 ''b1'' accepted 2)
   \<and> rides (snd (setStatus ''b1'' accepted scenarioC)) = [ride1 3 1]"
proof -
  have found: "findById b_id (bookings scenarioC) ''b1'' = Some (booking1 ''b1'' pending 2)"
    by (simp add: scenarioC_def db_def booking1_def findById_def)
  have st: "status (booking1 ''b1'' pending 2) = pending"
    by (simp add: booking1_def)
  from setStatus_accept_keeps_ride [OF found st]
  show ?thesis
    by (simp add: scenarioC_def db_def booking1_def)
qed

text \<open>
  Claim C4. Setting a pending booking to rejected or to cancelled, or an accepted booking
  to cancelled, raises the \<open>seatsAvailable\<close> of the booking's ride by exactly the
  booking's \<open>seatsBooked\<close> and stores the new status. The refund is one write to that
  one ride document; the rest of the rides collection is as before.
\<close>

theorem setStatus_refunds:
  assumes "findById b_id (bookings s) i = Some b"
    and "findById r_id (rides s) (rideId b) = Some r"
    and "(status b = pending \<and> (t = rejected \<or> t = cancelled))
         \<or> (status b = accepted \<and> t = cancelled)"
  shows "findById r_id (rides (snd (setStatus i t s))) (rideId b)
           = Some (r\<lparr>seatsAvailable := seatsAvailable r + seatsBooked b\<rparr>)
       \<and> rides (snd (setStatus i t s))
           = updateFirst (\<lambda>x. r_id x = rideId b)
               (seatsAvailable_update (\<lambda>_. seatsAvailable r + seatsBooked b)) (rides s)
       \<and> findById b_id (bookings (snd (setStatus i t s))) i = Some (b\<lparr>status := t\<rparr>)"
  using assms
  by (auto simp: setStatus_def updateBooking_found Let_def findById_updateFirst_same)

theorem setStatus_refunds_witness:
  "findById r_id (rides (snd (setStatus ''b1'' cancelled scenarioE))) ''r1'' = Some (ride1 3 3)
   \<and> findById b_id (bookings (snd (setStatus ''b1'' cancelled scenarioE))) ''b1''
       = Some (booking1 ''b1'' cancelled 2)"
proof -
  have found: "findById b_id (bookings scenarioE) ''b1'' = Some (booking1 ''b1'' accepted 2)"
    by (simp add: scenarioE_def db_def booking1_def findById_def)
  have ride: "findById r_id (rides scenarioE) (rideId (booking1 ''b1'' accepted 2)) = Some (ride1 3 1)"
    by (simp add: scenarioE_def db_def booking1_def ride1_def findById_def)
  have move: "(status (booking1 ''b1'' accepted 2) = pending \<and> (cancelled = rejected \<or> cancelled = cancelled))
              \<or> (status (booking1 ''b1'' accepted 2) = accepted \<and> cancelled = cancelled)"
    by (simp add: booking1_def)
  from setStatus_refunds [OF found ride move]
  show ?thesis
    by (simp add: scenarioE_def db_def booking1_def ride1_def findById_def)
qed

text \<open>
  Claim C10. A patch that sets the status to cancelled or rejected, applied to a booking
  that is already cancelled or rejected, stores the new status and leaves every ride
  untouched: the refund is guarded by the status the booking had before, so a repeated
  cancellation or rejection refunds nothing.
\<close>

theorem updateBooking_no_second_refund:
  assumes "findById b_id (bookings s) i = Some b"
    and "status b = cancelled \<or> status b = rejected"
    and "p_status data = Some t" and "t = cancelled \<or> t = rejected"
  shows "rides (snd (updateBooking i data s)) = rides s
       \<and> map_option status (findById b_id (bookings (snd (updateBooking i data s))) i) = Some t
       \<and> map_option status (fst (updateBooking i data s)) = Some t"
  using assms
  by (auto simp: updateBooking_found Let_def findById_updateFirst_same applyBookingPatch_def
      split: option.splits)

theorem updateBooking_no_second_refund_witness:
  "rides (snd (updateBooking ''b1'' (statusPatch rejected)
            (db [ride1 3 3] [booking1 ''b1'' cancelled 2]))) = [ride1 3 3]
   \<and> map_option status (fst (updateBooking ''b1'' (statusPatch rejected)
            (db [ride1 3 3] [booking1 ''b1'' cancelled 2]))) = Some rejected"
proof -
  have found: "findById b_id (bookings (db [ride1 3 3] [booking1 ''b1'' cancelled 2])) ''b1''
      = Some (booking1 ''b1'' cancelled 2)"
    by (simp add: db_def booking1_def findById_def)
  have old: "status (booking1 ''b1'' cancelled 2) = cancelled
      \<or> status (booking1 ''b1'' cancelled 2) = rejected"
    by (simp add: booking1_def)
  have new: "p_status (statusPatch rejected) = Some rejected"
    by (simp add: statusPatch_def)
  have t: "rejected = cancelled \<or> rejected = rejected" by simp
  from updateBooking_no_second_refund [OF found old new t]
  show ?thesis
    by (simp add: db_def)
qed

section \<open>Seat accounting over sequences of requests\<close>

text \<open>
  Claim C1 (as amended). \<open>updateBooking\<close> checks no transition table: it stores whatever
  status string it is given, and refunds only under its two guards. Take integer seat
  counts and a database with unique keys in which every ride satisfies
  \<open>seatsAvailable + (seatsBooked of its pending and accepted bookings) = seatsTotal\<close>.
  The law still holds for every ride in the database after any sequence of booking
  requests, status changes with a body \<open>{ status }\<close> (any string) and ride deletions,
  provided that no status change releases seats without a refund (an accepted booking set
  to rejected, or a pending or accepted booking set to a string other than pending,
  accepted, rejected and cancelled) and none revives a booking (a booking that is neither
  pending nor accepted set to pending or accepted). A deleted ride is no longer in the
  database.
\<close>

theorem seat_conservation_balanced:
  assumes "uniqueIds s" and "seatConservation s" and "balancedAll qs s"
  shows "seatConservation (serveAll qs s)"
  using assms by (simp add: serveAll_invariant)

theorem seat_conservation_balanced_witness:
  "uniqueIds scenarioA \<and> seatConservation scenarioA \<and> balancedAll busyDay scenarioA
   \<and> seatConservation (serveAll busyDay scenarioA)"
proof -
  have u: "uniqueIds scenarioA" by code_simp
  have c: "seatConservation scenarioA" by code_simp
  have b: "balancedAll busyDay scenarioA" by code_simp
  from seat_conservation_balanced [OF u c b] u c b show ?thesis by simp
qed

text \<open>
  The claim as stated fails: with 3 seats, a booking of 2 seats that is requested,
  accepted and then rejected ends rejected while the ride still shows 1 seat available,
  so 1 + 0 is not 3.
\<close>

theorem seat_conservation_counterexample:
  "seatConservation scenarioA
   \<and> \<not> seatConservation
        (serveAll [RequestBooking ''b1'' ''r1'' ''p1'' (Some 2), SetStatus ''b1'' accepted,
                   SetStatus ''b1'' rejected] scenarioA)"
  by code_simp

text \<open>
  Claim C8 (as amended). Take integer seat counts and a database with unique keys in which
  no ride is overcommitted (\<open>seatsAvailable\<close> plus the \<open>seatsBooked\<close> of its pending
  and accepted bookings is at most \<open>seatsTotal\<close>, as the conservation law gives) and no
  \<open>seatsAvailable\<close> or \<open>seatsBooked\<close> is negative. Then
  \<open>0 \<le> seatsAvailable \<le> seatsTotal\<close> holds for every ride after each request of any
  sequence of booking requests, status changes with a body \<open>{ status }\<close> (any string)
  and ride deletions in which no status change revives a booking, that is, sets a booking
  that is neither pending nor accepted to pending or accepted.
\<close>

theorem seats_in_range_revival_free:
  assumes "uniqueIds s" and "seatsCovered s" and "seatsNonNegative s" and "revivalFreeAll qs s"
  shows "seatsInRange (serveAll (take k qs) s)"
proof -
  from assms(4) have "revivalFreeAll (take k qs) s" by (rule revivalFreeAll_take)
  with assms(1,2,3)
  have "seatsCovered (serveAll (take k qs) s) \<and> seatsNonNegative (serveAll (take k qs) s)"
    by (rule serveAll_covered)
  then show ?thesis by (simp add: covered_in_range)
qed

theorem seats_in_range_revival_free_witness:
  "uniqueIds scenarioA \<and> seatsCovered scenarioA \<and> seatsNonNegative scenarioA
   \<and> revivalFreeAll leakyDay scenarioA \<and> seatsInRange (serveAll (take 5 leakyDay) scenarioA)"
proof -
  have u: "uniqueIds scenarioA" by code_simp
  have c: "seatsCovered scenarioA" by code_simp
  have n: "seatsNonNegative scenarioA" by code_simp
  have f: "revivalFreeAll leakyDay scenarioA" by code_simp
  from seats_in_range_revival_free [OF u c n f, of 5] u c n f show ?thesis by simp
qed

text \<open>
  The claim as stated fails: a booking of 2 seats on a ride of 3 that is cancelled, then
  accepted and cancelled again is refunded twice, and the ride ends with 5 seats
  available out of 3.
\<close>

theorem seats_in_range_counterexample:
  "seatsInRange scenarioA
   \<and> \<not> seatsInRange
        (serveAll [RequestBooking ''b1'' ''r1'' ''p1'' (Some 2), SetStatus ''b1'' cancelled,
                   SetStatus ''b1'' accepted, SetStatus ''b1'' cancelled] scenarioA)"
  by code_simp

section \<open>Transitions outside the table\<close>

text \<open>
  Claim C3 (as amended). \<open>updateBooking\<close> has no notion of an invalid transition. Setting
  an accepted booking to rejected, or setting a rejected or cancelled booking to any
  status, succeeds: the call returns the booking with the new status and the new status is
  stored. In every such case all rides, and so every \<open>seatsAvailable\<close>, are unchanged.
\<close>

theorem setStatus_never_invalid:
  assumes "findById b_id (bookings s) i = Some b"
    and "(status b = accepted \<and> t = rejected) \<or> status b = rejected \<or> status b = cancelled"
  shows "fst (setStatus i t s) = Some (b\<lparr>status := t\<rparr>)
       \<and> findById b_id (bookings (snd (setStatus i t s))) i = Some (b\<lparr>status := t\<rparr>)
       \<and> rides (snd (setStatus i t s)) = rides s"
  using assms
  by (auto simp: setStatus_def updateBooking_found Let_def findById_updateFirst_same
      split: option.splits)

theorem setStatus_never_invalid_witness:
  "fst (setStatus ''b1'' rejected scenarioE) = Some (booking1 ''b1'' rejected 2)
   \<and> findById b_id (bookings (snd (setStatus ''b1'' rejected scenarioE))) ''b1''
       = Some (booking1 ''b1'' rejected 2)
   \<and> rides (snd (setStatus ''b1'' rejected scenarioE)) = [ride1 3 1]"
proof -
  have found: "findById b_id (bookings scenarioE) ''b1'' = Some (booking1 ''b1'' accepted 2)"
    by (simp add: scenarioE_def db_def booking1_def findById_def)
  have move: "(status (booking1 ''b1'' accepted 2) = accepted \<and> rejected = rejected)
      \<or> status (booking1 ''b1'' accepted 2) = rejected
      \<or> status (booking1 ''b1'' accepted 2) = cancelled"
    by (simp add: booking1_def)
  from setStatus_never_invalid [OF found move]
  show ?thesis
    by (simp add: scenarioE_def db_def booking1_def)
qed

text \<open>
  The claim as stated fails: on the accepted booking of scenario E, setting the status to
  rejected succeeds and the stored status becomes rejected; and cancelling it twice
  succeeds both times.
\<close>

theorem setStatus_invalid_counterexample:
  "fst (setStatus ''b1'' rejected scenarioE) = Some (booking1 ''b1'' rejected 2)
   \<and> map_option status (findById b_id (bookings (snd (setStatus ''b1'' rejected scenarioE))) ''b1'')
       = Some rejected
   \<and> fst (setStatus ''b1'' cancelled (snd (setStatus ''b1'' cancelled scenarioE)))
       = Some (booking1 ''b1'' cancelled 2)"
  by code_simp

section \<open>Deleting a ride\<close>

text \<open>
  Claim C7 (as amended). On a database with unique keys, \<open>deleteRide\<close> sets every pending
  booking of the ride to rejected and leaves every other booking as it is, and it removes
  the ride from the database instead of setting \<open>isActive\<close> to false. It writes no seat
  counter: every other ride stays as it was and nothing is refunded. It returns whether the
  ride existed.
\<close>

theorem deleteRide_rejects_and_removes:
  assumes "uniqueIds s"
  shows "bookings (snd (deleteRide i s))
           = map (\<lambda>x. if rideId x = i \<and> status x = pending then x\<lparr>status := rejected\<rparr> else x)
               (bookings s)
       \<and> rides (snd (deleteRide i s)) = filter (\<lambda>r. r_id r \<noteq> i) (rides s)
       \<and> fst (getRide i (snd (deleteRide i s))) = None
       \<and> fst (deleteRide i s) = (fst (getRide i s) \<noteq> None)"
  using deleteRide_effect [OF assms, of i]
  by (simp add: getRide_def findById_None_iff)

theorem deleteRide_rejects_and_removes_witness:
  "uniqueIds scenarioD
   \<and> bookings (snd (deleteRide ''r1'' scenarioD))
       = [booking1 ''b1'' rejected 1, booking1 ''b2'' rejected 2]
   \<and> rides (snd (deleteRide ''r1'' scenarioD)) = []
   \<and> fst (deleteRide ''r1'' scenarioD)"
proof -
  have u: "uniqueIds scenarioD" by code_simp
  from deleteRide_rejects_and_removes [OF u, of "''r1''"] u
  show ?thesis
    by (simp add: scenarioD_def db_def booking1_def ride1_def getRide_def findById_def)
qed

text \<open>
  The claim as stated fails on scenario D: after the deletion there is no ride
  \<open>r1\<close> whose \<open>isActive\<close> could be false or whose \<open>seatsAvailable\<close> could be 3.
\<close>

theorem deleteRide_counterexample:
  "fst (getRide ''r1'' (snd (deleteRide ''r1'' scenarioD))) = None
   \<and> rides (snd (deleteRide ''r1'' scenarioD)) = []"
  by code_simp

section \<open>Read projections\<close>

lemma getBookingWithDetails_store: "snd (getBookingWithDetails i s) = s"
  by (simp add: getBookingWithDetails_def getBooking_def getRide_def getUser_def
      split: option.splits)

lemma collectDetails_store: "snd (collectDetails bs results s) = s"
proof (induction bs arbitrary: results)
  case Nil
  then show ?case by simp
next
  case (Cons b bs)
  obtain d where d: "getBookingWithDetails (b_id b) s = (d, s)"
    using getBookingWithDetails_store [of "b_id b" s] by (metis prod.collapse)
  show ?case
    by (cases d) (simp_all add: d Cons.IH)
qed

lemma getBookingsByRide_store: "snd (getBookingsByRide rid s) = s"
  by (simp add: getBookingsByRide_def collectDetails_store)

lemma getBookingsByPassenger_store: "snd (getBookingsByPassenger pid s) = s"
  by (simp add: getBookingsByPassenger_def collectDetails_store)

lemma funpow_fixed: "f s = s \<Longrightarrow> (f ^^ n) s = s"
  by (induction n) simp_all

text \<open>
  Claim C9. \<open>getBookingsByRide\<close> and \<open>getBookingsByPassenger\<close> leave the database
  (users, vehicles, rides and bookings) exactly as it was, however many times they are
  called, and a call after any number of earlier calls returns the same result.
\<close>

theorem read_projections_pure:
  "snd (getBookingsByRide rid s) = s
   \<and> snd (getBookingsByPassenger pid s) = s
   \<and> ((\<lambda>d. snd (getBookingsByRide rid d)) ^^ n) s = s
   \<and> ((\<lambda>d. snd (getBookingsByPassenger pid d)) ^^ n) s = s
   \<and> getBookingsByRide rid (((\<lambda>d. snd (getBookingsByRide rid d)) ^^ n) s) = getBookingsByRide rid s
   \<and> getBookingsByPassenger pid (((\<lambda>d. snd (getBookingsByPassenger pid d)) ^^ n) s)
       = getBookingsByPassenger pid s"
  by (simp add: getBookingsByRide_store getBookingsByPassenger_store funpow_fixed)

end
